theory Spec2Isabelle
  imports Complex_Main
begin

section \<open>The billing ledger\<close>

text \<open>
  The module keeps one dictionary \<^verbatim>\<open>billing\<close> with the list of entries and three
  running totals. Python's \<^verbatim>\<open>float\<close> is modelled by \<^typ>\<open>real\<close> (exact arithmetic,
  rounding is not modelled) and Python's \<^verbatim>\<open>int\<close> by \<^typ>\<open>int\<close>. The key
  \<^verbatim>\<open>note\<close> of an entry is the field \<open>note_text\<close>.
\<close>

record entry =
  model :: string
  raw_sum :: real
  sum_uzs :: real
  tokens :: int
  note_text :: string

record billing =
  entries :: "entry list"
  total_raw :: real
  total_uzs :: real
  total_tokens :: int

definition USD_TO_UZS :: real where
  "USD_TO_UZS = 20000.2"

text \<open>The module-level value of \<^verbatim>\<open>billing\<close> when the process starts.\<close>

definition billing_init :: billing where
  "billing_init = \<lparr>entries = [], total_raw = 0, total_uzs = 0, total_tokens = 0\<rparr>"

text \<open>
  \<^verbatim>\<open>add_billing_entry\<close> mutates the global dictionary and returns the new entry; the
  model takes the ledger and returns the entry together with the updated ledger.
\<close>

definition add_billing_entry ::
  "string \<Rightarrow> real \<Rightarrow> int \<Rightarrow> string \<Rightarrow> billing \<Rightarrow> entry \<times> billing" where
  "add_billing_entry model_name cost_usd tokens_arg note_arg b =
     (let uzs = cost_usd * USD_TO_UZS;
          e = \<lparr>model = model_name, raw_sum = cost_usd, sum_uzs = uzs,
               tokens = tokens_arg, note_text = note_arg\<rparr>
      in (e, b\<lparr>entries := entries b @ [e],
               total_raw := total_raw b + cost_usd,
               total_uzs := total_uzs b + uzs,
               total_tokens := total_tokens b + tokens_arg\<rparr>))"

text \<open>
  A call of \<^verbatim>\<open>add_billing_entry\<close> is given by its four arguments; a sequence of calls
  is run from left to right on the ledger.
\<close>

type_synonym record_call = "string \<times> real \<times> int \<times> string"

fun record_calls :: "record_call list \<Rightarrow> billing \<Rightarrow> billing" where
  "record_calls [] b = b"
| "record_calls ((m, c, t, n) # cs) b = record_calls cs (snd (add_billing_entry m c t n b))"

text \<open>The entry that one call creates.\<close>

definition entry_of :: "record_call \<Rightarrow> entry" where
  "entry_of call = (case call of (m, c, t, n) \<Rightarrow>
     \<lparr>model = m, raw_sum = c, sum_uzs = c * USD_TO_UZS, tokens = t, note_text = n\<rparr>)"

section \<open>Vocabulary extraction\<close>

text \<open>
  \<^verbatim>\<open>handle_voice\<close> computes its word list with
  \<^verbatim>\<open>re.findall(r'\b\w+\b', text.lower())\<close> and a loop that keeps the words longer
  than three characters at their first occurrence. A Python string is a sequence of code
  points, here a list over any type \<open>'c\<close>. The character class \<^verbatim>\<open>\w\<close> and
  \<^verbatim>\<open>str.lower\<close> belong to the Python run time and are parameters of the model:
  \<open>isw\<close> tells whether a code point is in \<^verbatim>\<open>\w\<close>, and \<open>lower\<close> is
  \<^verbatim>\<open>str.lower\<close>.
\<close>

text \<open>
  \<^verbatim>\<open>\b\<close> matches at position \<open>i\<close> when exactly one of the characters before and
  after the position is a word character; the start and the end of the string count as
  non-word characters.
\<close>

definition word_boundary :: "('c \<Rightarrow> bool) \<Rightarrow> 'c list \<Rightarrow> nat \<Rightarrow> bool" where
  "word_boundary isw s i = ((0 < i \<and> isw (s ! (i - 1))) \<noteq> (i < length s \<and> isw (s ! i)))"

text \<open>
  \<^verbatim>\<open>\w+\<close> is greedy: it first takes all \<open>k\<close> word characters that follow position
  \<open>i\<close>, and gives them back one at a time, down to one character, until the closing
  \<^verbatim>\<open>\b\<close> matches. The result is the end position of the match.
\<close>

fun give_back :: "('c \<Rightarrow> bool) \<Rightarrow> 'c list \<Rightarrow> nat \<Rightarrow> nat \<Rightarrow> nat option" where
  "give_back isw s i 0 = None"
| "give_back isw s i (Suc k) =
     (if word_boundary isw s (i + Suc k) then Some (i + Suc k) else give_back isw s i k)"

text \<open>The attempt to match \<^verbatim>\<open>\b\w+\b\<close> starting at position \<open>i\<close>.\<close>

definition match_at :: "('c \<Rightarrow> bool) \<Rightarrow> 'c list \<Rightarrow> nat \<Rightarrow> nat option" where
  "match_at isw s i =
     (if word_boundary isw s i then give_back isw s i (length (takeWhile isw (drop i s)))
      else None)"

lemma give_back_gt: "give_back isw s i k = Some e \<Longrightarrow> i < e"
  by (induction k) (auto split: if_splits)

lemma match_at_gt: "match_at isw s i = Some e \<Longrightarrow> i < e"
  by (auto simp: match_at_def split: if_splits dest: give_back_gt)

text \<open>
  \<^verbatim>\<open>re.findall\<close> scans from left to right: where the pattern matches it records the
  matched text and goes on from the end of the match, elsewhere it moves one position on,
  up to and including the end of the string.
\<close>

function findall_from :: "('c \<Rightarrow> bool) \<Rightarrow> 'c list \<Rightarrow> nat \<Rightarrow> 'c list list" where
  "findall_from isw s pos =
     (if length s < pos then []
      else (case match_at isw s pos of
              None \<Rightarrow> findall_from isw s (Suc pos)
            | Some e \<Rightarrow> take (e - pos) (drop pos s) # findall_from isw s e))"
  by pat_completeness auto
termination
  by (relation "measure (\<lambda>(isw, s, pos). Suc (length s) - pos)")
     (auto dest: match_at_gt)

declare findall_from.simps [simp del]

definition findall_words :: "('c \<Rightarrow> bool) \<Rightarrow> 'c list \<Rightarrow> 'c list list" where
  "findall_words isw s = findall_from isw s 0"

text \<open>
  The loop over the matches, with its two variables \<^verbatim>\<open>words\<close> and \<^verbatim>\<open>seen\<close>.
\<close>

fun unique_words :: "'c list list \<Rightarrow> 'c list list \<Rightarrow> 'c list set \<Rightarrow> 'c list list" where
  "unique_words [] words seen = words"
| "unique_words (word # rest) words seen =
     (if 3 < length word \<and> word \<notin> seen
      then unique_words rest (words @ [word]) (insert word seen)
      else unique_words rest words seen)"

definition extract_words :: "('c \<Rightarrow> bool) \<Rightarrow> ('c list \<Rightarrow> 'c list) \<Rightarrow> 'c list \<Rightarrow> 'c list list" where
  "extract_words isw lower text = unique_words (findall_words isw (lower text)) [] {}"

text \<open>
  On ASCII text, \<^verbatim>\<open>\w\<close> is a letter, a digit or the underscore, and
  \<^verbatim>\<open>str.lower\<close> maps the capital letters A to Z to a to z.
\<close>

definition ascii_word_char :: "char \<Rightarrow> bool" where
  "ascii_word_char c =
     (let n = (of_char c :: nat)
      in (48 \<le> n \<and> n \<le> 57) \<or> (65 \<le> n \<and> n \<le> 90) \<or> n = 95 \<or> (97 \<le> n \<and> n \<le> 122))"

definition ascii_lower :: "string \<Rightarrow> string" where
  "ascii_lower s =
     map (\<lambda>c. let n = (of_char c :: nat) in if 65 \<le> n \<and> n \<le> 90 then char_of (n + 32) else c) s"

subsection \<open>The extraction as the specification words it\<close>

text \<open>
  The maximal runs of word characters of a string, from left to right: a run starts at a
  word character, takes the word characters that follow, and the search goes on behind
  them.
\<close>

function word_runs :: "('c \<Rightarrow> bool) \<Rightarrow> 'c list \<Rightarrow> 'c list list" where
  "word_runs isw [] = []"
| "word_runs isw (c # cs) =
     (if isw c then takeWhile isw (c # cs) # word_runs isw (dropWhile isw cs)
      else word_runs isw cs)"
  by pat_completeness auto
termination
  by (relation "measure (\<lambda>(isw, s). length s)")
     (auto simp: less_Suc_eq_le length_dropWhile_le)

text \<open>
  The tokens that are longer than three characters and do not occur earlier in the list,
  in the order of the list.
\<close>

definition first_long_occurrences :: "'c list list \<Rightarrow> 'c list list" where
  "first_long_occurrences ts =
     map (\<lambda>i. ts ! i)
       (filter (\<lambda>i. 3 < length (ts ! i) \<and> ts ! i \<notin> set (take i ts)) [0..<length ts])"

section \<open>Enrichment of one word\<close>

text \<open>
  The value that \<^verbatim>\<open>json.loads\<close> returns: a dictionary for a JSON object (its items,
  with distinct keys), or one of the other JSON values.
\<close>

datatype json =
    JNull
  | JBool bool
  | JNumber real
  | JString string
  | JArray "json list"
  | JObject "(string \<times> json) list"

text \<open>The exceptions of a run, each with its message.\<close>

datatype exn =
    TelegramError string
  | OpenAIError string
  | AttributeError string
  | FileNotFoundError string

text \<open>
  \<^verbatim>\<open>response.usage\<close>. A count is \<open>None\<close> where reading the attribute or adding it
  to an integer raises (the attribute is missing, or is not a number).
\<close>

record usage =
  prompt_tokens :: "int option"
  completion_tokens :: "int option"
  usage_total_tokens :: "int option"

text \<open>
  What the loop reads of a chat completion: \<open>loads_content\<close> is the value of
  \<^verbatim>\<open>json.loads(response.choices[0].message.content)\<close>, \<open>None\<close> when that expression
  raises; \<open>usage\<close> is \<^verbatim>\<open>response.usage\<close>, \<open>None\<close> when it is absent.
\<close>

record response =
  loads_content :: "json option"
  usage :: "usage option"

text \<open>
  The dictionary \<^verbatim>\<open>word_dict\<close>; its key \<^verbatim>\<open>definition\<close> is the field
  \<open>definition_of\<close>. The two values come from the parsed JSON as they are.
\<close>

record 'c word_dict =
  word :: "'c list"
  translate :: json
  definition_of :: json

text \<open>
  The variables of the loop over the words: \<^verbatim>\<open>word_list\<close>,
  \<^verbatim>\<open>total_prompt_tokens\<close>, \<^verbatim>\<open>total_completion_tokens\<close> and \<^verbatim>\<open>total_tokens\<close>
  (here \<open>run_total_tokens\<close>, the ledger has a key of the same name).
\<close>

record 'c acc =
  word_list :: "'c word_dict list"
  total_prompt_tokens :: int
  total_completion_tokens :: int
  run_total_tokens :: int

definition acc_init :: "'c acc" where
  "acc_init = \<lparr>word_list = [], total_prompt_tokens = 0, total_completion_tokens = 0,
                run_total_tokens = 0\<rparr>"

text \<open>
  \<^verbatim>\<open>data.get(key, default)\<close>: a dictionary answers with the value of the key or the
  default; every other JSON value has no method \<^verbatim>\<open>get\<close> and the call raises
  \<^verbatim>\<open>AttributeError\<close>.
\<close>

fun py_get :: "json \<Rightarrow> string \<Rightarrow> json \<Rightarrow> exn + json" where
  "py_get (JObject items) key dflt = Inr (case map_of items key of None \<Rightarrow> dflt | Some v \<Rightarrow> v)"
| "py_get data key dflt = Inl (AttributeError ''get'')"

text \<open>
  The three additions under one \<^verbatim>\<open>try\<close> whose handler is \<^verbatim>\<open>pass\<close>: the first
  statement that raises ends the block, and the additions before it stay.
\<close>

definition accumulate_usage :: "response \<Rightarrow> 'c acc \<Rightarrow> 'c acc" where
  "accumulate_usage r a =
     (case usage r of
        None \<Rightarrow> a
      | Some u \<Rightarrow>
          (case prompt_tokens u of
             None \<Rightarrow> a
           | Some p \<Rightarrow>
               (let a1 = a\<lparr>total_prompt_tokens := total_prompt_tokens a + p\<rparr>
                in case completion_tokens u of
                     None \<Rightarrow> a1
                   | Some c \<Rightarrow>
                       (let a2 = a1\<lparr>total_completion_tokens := total_completion_tokens a1 + c\<rparr>
                        in case usage_total_tokens u of
                             None \<Rightarrow> a2
                           | Some t \<Rightarrow> a2\<lparr>run_total_tokens := run_total_tokens a2 + t\<rparr>))))"

text \<open>
  The body of the loop for one word. \<open>chat\<close> is the call
  \<^verbatim>\<open>client.chat.completions.create\<close> for the word and the full text: it raises or
  returns a response. \<open>Inl\<close> is an exception that leaves the loop; a response that does
  not parse takes the \<^verbatim>\<open>continue\<close> and leaves the variables as they are.
\<close>

definition enrich_word ::
  "('c list \<Rightarrow> 'c list \<Rightarrow> exn + response) \<Rightarrow> 'c list \<Rightarrow> 'c list \<Rightarrow> 'c acc \<Rightarrow> exn + 'c acc" where
  "enrich_word chat text wd a =
     (case chat wd text of
        Inl e \<Rightarrow> Inl e
      | Inr r \<Rightarrow>
          (case loads_content r of
             None \<Rightarrow> Inr a
           | Some data \<Rightarrow>
               (case py_get data ''translate'' (JString ''Not found'') of
                  Inl e \<Rightarrow> Inl e
                | Inr tr \<Rightarrow>
                    (case py_get data ''definition'' (JString ''Not found'') of
                       Inl e \<Rightarrow> Inl e
                     | Inr df \<Rightarrow>
                         Inr (accumulate_usage r
                                (a\<lparr>word_list := word_list a @
                                     [\<lparr>word = wd, translate = tr, definition_of = df\<rparr>]\<rparr>))))))"

fun enrich_loop ::
  "('c list \<Rightarrow> 'c list \<Rightarrow> exn + response) \<Rightarrow> 'c list \<Rightarrow> 'c list list \<Rightarrow> 'c acc \<Rightarrow> exn + 'c acc" where
  "enrich_loop chat text [] a = Inr a"
| "enrich_loop chat text (wd # rest) a =
     (case enrich_word chat text wd a of
        Inl e \<Rightarrow> Inl e
      | Inr a' \<Rightarrow> enrich_loop chat text rest a')"

section \<open>The voice pipeline\<close>

text \<open>
  A message to the user is modelled by the place of its \<^verbatim>\<open>reply_text\<close> call and the
  values put into the text; the formatting of the numbers is not modelled.
\<close>

datatype 'c message =
    RecognizedText "'c list"
  | WhisperBilled real real
  | WordCard "'c word_dict"
  | GptBilled int real real
  | RecognitionError exn
  | GenericError

record voice =
  duration :: int

text \<open>
  The outcomes of the external calls of one run: fetching the file, the name of the
  temporary file, the download, the transcription (its text, or the exception), the
  chat completion for a word and the full text, and the sending of a message, which the
  platform accepts (\<open>None\<close>) or refuses with an exception. The words of a run are
  distinct, so the completion is asked once for each word, and no message is sent twice.
\<close>

record 'c world =
  get_file :: "exn option"
  temp_name :: string
  download_to_drive :: "exn option"
  transcribe :: "exn + 'c list"
  chat_completion :: "'c list \<Rightarrow> 'c list \<Rightarrow> exn + response"
  send :: "'c message \<Rightarrow> exn option"

text \<open>
  What a run changes: the ledger, the files that exist (a set of paths) and the messages
  delivered to the user, oldest first.
\<close>

record 'c state =
  bill :: billing
  files :: "string set"
  sent :: "'c message list"

definition state_init :: "'c state" where
  "state_init = \<lparr>bill = billing_init, files = {}, sent = []\<rparr>"

text \<open>
  \<^verbatim>\<open>await update.message.reply_text(...)\<close>: the message is delivered, or the call
  raises and nothing is delivered. The first component of the result is the exception.
\<close>

definition reply_text :: "'c world \<Rightarrow> 'c message \<Rightarrow> 'c state \<Rightarrow> exn option \<times> 'c state" where
  "reply_text w m s =
     (case send w m of
        Some e \<Rightarrow> (Some e, s)
      | None \<Rightarrow> (None, s\<lparr>sent := sent s @ [m]\<rparr>))"

text \<open>
  The loop that sends one message for each entry of \<^verbatim>\<open>word_list\<close>; a send that raises
  leaves the loop.
\<close>

fun send_cards :: "'c world \<Rightarrow> 'c word_dict list \<Rightarrow> 'c state \<Rightarrow> exn option \<times> 'c state" where
  "send_cards w [] s = (None, s)"
| "send_cards w (word_dict # rest) s =
     (case reply_text w (WordCard word_dict) s of
        (Some e, s') \<Rightarrow> (Some e, s')
      | (None, s') \<Rightarrow> send_cards w rest s')"

text \<open>The decimal digits of an integer, as the f-string of the note prints it.\<close>

fun digits :: "nat \<Rightarrow> string" where
  "digits n = (if n < 10 then [char_of (48 + n)] else digits (n div 10) @ [char_of (48 + n mod 10)])"

declare digits.simps [simp del]

definition str_int :: "int \<Rightarrow> string" where
  "str_int i = (if i < 0 then CHR ''-'' # digits (nat (- i)) else digits (nat i))"

definition model_name :: string where
  "model_name = ''gpt-4.1-mini''"

text \<open>
  The body of the \<^verbatim>\<open>try\<close> statement of \<^verbatim>\<open>handle_voice\<close>, from opening the audio
  file to the message about the cost of the analysis. The result is the exception that
  left the body, if any, and the state at that point. Every statement that can raise is
  an exit: opening the file, the transcription, each send, and the enrichment loop.
\<close>

definition try_block ::
  "('c \<Rightarrow> bool) \<Rightarrow> ('c list \<Rightarrow> 'c list) \<Rightarrow> 'c world \<Rightarrow> voice \<Rightarrow> string \<Rightarrow> 'c state
     \<Rightarrow> exn option \<times> 'c state" where
  "try_block isw lower w v ogg_path s =
     (if ogg_path \<notin> files s then (Some (FileNotFoundError ogg_path), s)
      else case transcribe w of
        Inl e \<Rightarrow> (Some e, s)
      | Inr text \<Rightarrow>
          (case reply_text w (RecognizedText text) s of
             (Some e, s1) \<Rightarrow> (Some e, s1)
           | (None, s1) \<Rightarrow>
               (let duration_sec = duration v;
                    whisper_cost = (real_of_int duration_sec / 60.0) * 0.006;
                    (whisper_added, b1) =
                       add_billing_entry ''whisper-1'' whisper_cost 0
                         (''voice duration: '' @ str_int duration_sec @ '' seconds'') (bill s1)
                in case reply_text w
                          (WhisperBilled (raw_sum whisper_added) (sum_uzs whisper_added))
                          (s1\<lparr>bill := b1\<rparr>) of
                     (Some e, s2) \<Rightarrow> (Some e, s2)
                   | (None, s2) \<Rightarrow>
                       (let words = extract_words isw lower text
                        in case enrich_loop (chat_completion w) text words acc_init of
                             Inl e \<Rightarrow> (Some e, s2)
                           | Inr a \<Rightarrow>
                               (case send_cards w (word_list a) s2 of
                                  (Some e, s3) \<Rightarrow> (Some e, s3)
                                | (None, s3) \<Rightarrow>
                                    (let input_price_per_token = 0.40 / 1000000.0;
                                         output_price_per_token = 1.60 / 1000000.0;
                                         gpt_cost =
                                           (real_of_int (total_prompt_tokens a) * input_price_per_token)
                                           + (real_of_int (total_completion_tokens a)
                                                * output_price_per_token);
                                         (gpt_added, b2) =
                                            add_billing_entry model_name gpt_cost (run_total_tokens a)
                                              ''per voice analysis'' (bill s3)
                                     in reply_text w
                                          (GptBilled (run_total_tokens a) (raw_sum gpt_added)
                                             (sum_uzs gpt_added))
                                          (s3\<lparr>bill := b2\<rparr>)))))))"

text \<open>
  \<^verbatim>\<open>os.remove\<close> deletes a file that exists and raises for a path that does not; the
  \<^verbatim>\<open>finally\<close> clause swallows the exception.
\<close>

definition os_remove :: "string \<Rightarrow> string set \<Rightarrow> exn + string set" where
  "os_remove p fs = (if p \<in> fs then Inr (fs - {p}) else Inl (FileNotFoundError p))"

definition remove_temp :: "string \<Rightarrow> 'c state \<Rightarrow> 'c state" where
  "remove_temp ogg_path s =
     (case os_remove ogg_path (files s) of
        Inl e \<Rightarrow> s
      | Inr fs \<Rightarrow> s\<lparr>files := fs\<rparr>)"

text \<open>
  \<^verbatim>\<open>handle_voice\<close>. The update carries a voice message or none. The file is fetched and
  \<^verbatim>\<open>NamedTemporaryFile(delete=False)\<close> creates the temporary file before the download
  writes to it; both steps stand before the \<^verbatim>\<open>try\<close> statement, so an exception there
  leaves the handler at once. An exception of the body is caught and its text is sent; when
  that send raises too, its exception leaves the handler. The \<^verbatim>\<open>finally\<close> clause runs
  in every case. The result is the exception that leaves the handler, if any, and the
  state after the run.
\<close>

definition handle_voice ::
  "('c \<Rightarrow> bool) \<Rightarrow> ('c list \<Rightarrow> 'c list) \<Rightarrow> 'c world \<Rightarrow> voice option \<Rightarrow> 'c state
     \<Rightarrow> exn option \<times> 'c state" where
  "handle_voice isw lower w upd s =
     (case upd of
        None \<Rightarrow> (None, s)
      | Some v \<Rightarrow>
          (case get_file w of
             Some e \<Rightarrow> (Some e, s)
           | None \<Rightarrow>
               (let s1 = s\<lparr>files := insert (temp_name w) (files s)\<rparr>
                in case download_to_drive w of
                     Some e \<Rightarrow> (Some e, s1)
                   | None \<Rightarrow>
                       (let ogg_path = temp_name w;
                            (raised, s2) =
                               (case try_block isw lower w v ogg_path s1 of
                                  (Some e, s') \<Rightarrow> reply_text w (RecognitionError e) s'
                                | (None, s') \<Rightarrow> (None, s'))
                        in (raised, remove_temp ogg_path s2)))))"

text \<open>
  \<^verbatim>\<open>error_handler\<close> sends the generic message to the chat of the update. The
  application is built with \<^verbatim>\<open>add_error_handler(error_handler)\<close> and the voice
  handler: an exception that leaves \<^verbatim>\<open>handle_voice\<close> is passed to the error handler,
  and an exception of the error handler itself goes no further.
\<close>

definition error_handler :: "'c world \<Rightarrow> exn \<Rightarrow> 'c state \<Rightarrow> exn option \<times> 'c state" where
  "error_handler w e s = reply_text w GenericError s"

definition process_update ::
  "('c \<Rightarrow> bool) \<Rightarrow> ('c list \<Rightarrow> 'c list) \<Rightarrow> 'c world \<Rightarrow> voice option \<Rightarrow> 'c state \<Rightarrow> 'c state" where
  "process_update isw lower w upd s =
     (case handle_voice isw lower w upd s of
        (Some e, s') \<Rightarrow> snd (error_handler w e s')
      | (None, s') \<Rightarrow> s')"

subsection \<open>Outcomes of an enrichment call\<close>

text \<open>The counts that a call reports, zero where it reports none.\<close>

definition prompt_count :: "exn + response \<Rightarrow> int" where
  "prompt_count x =
     (case x of Inl e \<Rightarrow> 0
      | Inr r \<Rightarrow> (case usage r of None \<Rightarrow> 0
                  | Some u \<Rightarrow> (case prompt_tokens u of None \<Rightarrow> 0 | Some n \<Rightarrow> n)))"

definition completion_count :: "exn + response \<Rightarrow> int" where
  "completion_count x =
     (case x of Inl e \<Rightarrow> 0
      | Inr r \<Rightarrow> (case usage r of None \<Rightarrow> 0
                  | Some u \<Rightarrow> (case completion_tokens u of None \<Rightarrow> 0 | Some n \<Rightarrow> n)))"

definition total_count :: "exn + response \<Rightarrow> int" where
  "total_count x =
     (case x of Inl e \<Rightarrow> 0
      | Inr r \<Rightarrow> (case usage r of None \<Rightarrow> 0
                  | Some u \<Rightarrow> (case usage_total_tokens u of None \<Rightarrow> 0 | Some n \<Rightarrow> n)))"

text \<open>The usage of a response is whole when it is absent or carries all three counts.\<close>

definition usage_whole :: "response \<Rightarrow> bool" where
  "usage_whole r =
     (case usage r of None \<Rightarrow> True
      | Some u \<Rightarrow> (case (prompt_tokens u, completion_tokens u, usage_total_tokens u) of
                    (Some p, Some c, Some t) \<Rightarrow> True
                  | _ \<Rightarrow> False))"

text \<open>
  An enrichment call succeeds when it returns a response whose content parses to a JSON
  object and whose usage is whole.
\<close>

definition call_succeeds :: "exn + response \<Rightarrow> bool" where
  "call_succeeds x =
     (case x of Inl e \<Rightarrow> False
      | Inr r \<Rightarrow> (case loads_content r of Some (JObject items) \<Rightarrow> usage_whole r
                  | _ \<Rightarrow> False))"

text \<open>The word of a call is dropped when the call returns and the content does not parse.\<close>

definition call_dropped :: "exn + response \<Rightarrow> bool" where
  "call_dropped x =
     (case x of Inl e \<Rightarrow> False
      | Inr r \<Rightarrow> (case loads_content r of None \<Rightarrow> True | Some data \<Rightarrow> False))"

text \<open>
  A call lets the loop go on when it returns and the content either does not parse or
  parses to a JSON object.
\<close>

definition call_continues :: "exn + response \<Rightarrow> bool" where
  "call_continues x =
     (case x of Inl e \<Rightarrow> False
      | Inr r \<Rightarrow> (case loads_content r of None \<Rightarrow> True
                  | Some (JObject items) \<Rightarrow> True
                  | Some data \<Rightarrow> False))"

subsection \<open>The two ledger calls of a run\<close>

text \<open>
  The arguments of the two \<^verbatim>\<open>add_billing_entry\<close> calls of \<^verbatim>\<open>handle_voice\<close>: the
  one for the transcription, from the duration of the voice message, and the one for the
  analysis, from the counters of the loop.
\<close>

definition whisper_call :: "voice \<Rightarrow> record_call" where
  "whisper_call v = (''whisper-1'', real_of_int (duration v) / 60 * 0.006, 0,
      ''voice duration: '' @ str_int (duration v) @ '' seconds'')"

definition gpt_call :: "'c acc \<Rightarrow> record_call" where
  "gpt_call a = (''gpt-4.1-mini'',
      real_of_int (total_prompt_tokens a) * (0.40 / 1000000)
        + real_of_int (total_completion_tokens a) * (1.60 / 1000000),
      run_total_tokens a, ''per voice analysis'')"

subsection \<open>A sample run\<close>

text \<open>
  A response with both fields and a whole usage, and a world in which every external call
  succeeds and every message is accepted: the transcript has the two long words really
  and enjoyed.
\<close>

definition demo_response :: response where
  "demo_response =
     \<lparr>loads_content = Some (JObject [(''translate'', JString ''juda''),
                                     (''definition'', JString ''haqiqatan'')]),
      usage = Some \<lparr>prompt_tokens = Some 10, completion_tokens = Some 5,
                    usage_total_tokens = Some 15\<rparr>\<rparr>"

definition demo_world :: "char world" where
  "demo_world =
     \<lparr>get_file = None, temp_name = ''/tmp/tmpk3v9.ogg'', download_to_drive = None,
      transcribe = Inr ''I really enjoyed it'',
      chat_completion = (\<lambda>wd text. Inr demo_response),
      send = (\<lambda>m. None)\<rparr>"

text \<open>
  The same world, except that the platform refuses every word card (as it does for a text
  that it cannot parse as HTML).
\<close>

definition demo_world_cards_refused :: "char world" where
  "demo_world_cards_refused =
     demo_world\<lparr>send := (\<lambda>m. case m of WordCard d \<Rightarrow> Some (TelegramError ''Bad Request'')
                                | _ \<Rightarrow> None)\<rparr>"

section \<open>Ledger properties\<close>

lemma add_billing_entry_entries:
  "entries (snd (add_billing_entry m c t n b)) = entries b @ [entry_of (m, c, t, n)]"
  by (simp add: add_billing_entry_def entry_of_def Let_def)

lemma add_billing_entry_totals:
  "total_raw (snd (add_billing_entry m c t n b)) = total_raw b + c"
  "total_uzs (snd (add_billing_entry m c t n b)) = total_uzs b + c * USD_TO_UZS"
  "total_tokens (snd (add_billing_entry m c t n b)) = total_tokens b + t"
  by (simp_all add: add_billing_entry_def Let_def)

lemma record_calls_entries:
  "entries (record_calls cs b) = entries b @ map entry_of cs"
proof (induction cs arbitrary: b)
  case Nil
  show ?case by simp
next
  case (Cons call cs)
  obtain m c t n where call: "call = (m, c, t, n)"
    by (cases call) auto
  show ?case
    by (simp add: call Cons.IH add_billing_entry_entries)
qed

lemma record_calls_total_raw:
  "total_raw (record_calls cs b) = total_raw b + sum_list (map (raw_sum \<circ> entry_of) cs)"
proof (induction cs arbitrary: b)
  case Nil
  show ?case by simp
next
  case (Cons call cs)
  obtain m c t n where call: "call = (m, c, t, n)"
    by (cases call) auto
  show ?case
    by (simp add: call Cons.IH add_billing_entry_totals entry_of_def)
qed

lemma record_calls_total_uzs:
  "total_uzs (record_calls cs b) = total_uzs b + sum_list (map (sum_uzs \<circ> entry_of) cs)"
proof (induction cs arbitrary: b)
  case Nil
  show ?case by simp
next
  case (Cons call cs)
  obtain m c t n where call: "call = (m, c, t, n)"
    by (cases call) auto
  show ?case
    by (simp add: call Cons.IH add_billing_entry_totals entry_of_def)
qed

lemma record_calls_total_tokens:
  "total_tokens (record_calls cs b) = total_tokens b + sum_list (map (tokens \<circ> entry_of) cs)"
proof (induction cs arbitrary: b)
  case Nil
  show ?case by simp
next
  case (Cons call cs)
  obtain m c t n where call: "call = (m, c, t, n)"
    by (cases call) auto
  show ?case
    by (simp add: call Cons.IH add_billing_entry_totals entry_of_def)
qed

text \<open>
  Claim C1. Starting from the initial ledger, after any finite sequence of
  \<^verbatim>\<open>add_billing_entry\<close> calls each of the three running totals is the sum of its field
  over the entry list; with no call the totals are zero and the list is empty. Every call
  leaves the entries already present as they are and puts its own entry at the end, so
  the list after the calls is the list of the entries created, in call order.
\<close>

theorem ledger_totals_are_sums:
  "total_raw (record_calls cs billing_init) = sum_list (map raw_sum (entries (record_calls cs billing_init)))
   \<and> total_uzs (record_calls cs billing_init) = sum_list (map sum_uzs (entries (record_calls cs billing_init)))
   \<and> total_tokens (record_calls cs billing_init) = sum_list (map tokens (entries (record_calls cs billing_init)))
   \<and> entries (record_calls cs billing_init) = map entry_of cs
   \<and> entries (snd (add_billing_entry m c t n b)) = entries b @ [fst (add_billing_entry m c t n b)]
   \<and> record_calls [] billing_init = \<lparr>entries = [], total_raw = 0, total_uzs = 0, total_tokens = 0\<rparr>"
proof -
  have e: "entries (record_calls cs billing_init) = map entry_of cs"
    by (simp add: record_calls_entries billing_init_def)
  have r: "total_raw (record_calls cs billing_init) = sum_list (map (raw_sum \<circ> entry_of) cs)"
    by (simp add: record_calls_total_raw billing_init_def)
  have u: "total_uzs (record_calls cs billing_init) = sum_list (map (sum_uzs \<circ> entry_of) cs)"
    by (simp add: record_calls_total_uzs billing_init_def)
  have k: "total_tokens (record_calls cs billing_init) = sum_list (map (tokens \<circ> entry_of) cs)"
    by (simp add: record_calls_total_tokens billing_init_def)
  have a: "entries (snd (add_billing_entry m c t n b)) = entries b @ [fst (add_billing_entry m c t n b)]"
    by (simp add: add_billing_entry_def Let_def)
  have z: "record_calls [] billing_init = \<lparr>entries = [], total_raw = 0, total_uzs = 0, total_tokens = 0\<rparr>"
    by (simp add: billing_init_def)
  from e r u k a z show ?thesis
    by (simp only: map_map)
qed

text \<open>
  Claim C4. The entry created by \<^verbatim>\<open>add_billing_entry\<close> has a display cost equal to its
  raw cost times the exchange rate 20000.2, for every raw cost; the raw cost stored is the
  argument.
\<close>

theorem entry_display_cost:
  "sum_uzs (fst (add_billing_entry m c t n b)) = raw_sum (fst (add_billing_entry m c t n b)) * USD_TO_UZS
   \<and> raw_sum (fst (add_billing_entry m c t n b)) = c
   \<and> USD_TO_UZS = 20000.2
   \<and> last (entries (snd (add_billing_entry m c t n b))) = fst (add_billing_entry m c t n b)"
  by (simp add: add_billing_entry_def Let_def USD_TO_UZS_def)

section \<open>Extraction properties\<close>

text \<open>
  The scan of \<^verbatim>\<open>re.findall\<close> is compared with the maximal runs. At the first
  character of a run the pattern matches the whole run: the greedy \<^verbatim>\<open>\w+\<close> takes
  it all and the closing \<^verbatim>\<open>\b\<close> holds at once. Everywhere else no match starts.
\<close>

lemma run_len_pos:
  assumes "i < length s" "isw (s ! i)"
  shows "0 < length (takeWhile isw (drop i s))"
proof -
  from assms have "drop i s = s ! i # drop (Suc i) s"
    by (simp add: Cons_nth_drop_Suc)
  with assms show ?thesis by simp
qed

lemma boundary_after_run:
  assumes "0 < length (takeWhile isw (drop i s))"
  shows "word_boundary isw s (i + length (takeWhile isw (drop i s)))"
proof -
  let ?n = "length (takeWhile isw (drop i s))"
  have le: "?n \<le> length (drop i s)" by (rule length_takeWhile_le)
  from assms have n1: "?n - 1 < ?n" by simp
  have "takeWhile isw (drop i s) ! (?n - 1) = drop i s ! (?n - 1)"
    using n1 by (rule takeWhile_nth)
  moreover have "takeWhile isw (drop i s) ! (?n - 1) \<in> set (takeWhile isw (drop i s))"
    using n1 by (rule nth_mem)
  ultimately have "isw (drop i s ! (?n - 1))"
    by (auto dest: set_takeWhileD)
  moreover have "i \<le> length s"
    using assms by (cases "i \<le> length s") auto
  then have "drop i s ! (?n - 1) = s ! (i + (?n - 1))"
    by (simp add: nth_drop)
  moreover have "i + (?n - 1) = i + ?n - 1"
    using assms by arith
  ultimately have before: "isw (s ! (i + ?n - 1))" by simp
  have after: "\<not> isw (s ! (i + ?n))" if "i + ?n < length s"
  proof -
    from that have "?n < length (drop i s)" by simp
    then have "\<not> isw (drop i s ! ?n)" by (rule nth_length_takeWhile)
    then show ?thesis using that by (simp add: nth_drop)
  qed
  from before after assms show ?thesis
    by (auto simp: word_boundary_def)
qed

lemma give_back_run:
  assumes "0 < length (takeWhile isw (drop i s))"
  shows "give_back isw s i (length (takeWhile isw (drop i s))) = Some (i + length (takeWhile isw (drop i s)))"
proof -
  from assms obtain k where k: "length (takeWhile isw (drop i s)) = Suc k"
    by (cases "length (takeWhile isw (drop i s))") auto
  from boundary_after_run [OF assms] show ?thesis
    by (simp add: k)
qed

lemma match_at_run_start:
  assumes "i < length s" "isw (s ! i)" "i = 0 \<or> \<not> isw (s ! (i - 1))"
  shows "match_at isw s i = Some (i + length (takeWhile isw (drop i s)))"
proof -
  from assms have "word_boundary isw s i"
    by (auto simp: word_boundary_def)
  then show ?thesis
    by (simp add: match_at_def give_back_run [OF run_len_pos [of i s isw, OF assms(1,2)]])
qed

lemma match_at_no_word:
  assumes "length s \<le> i \<or> \<not> isw (s ! i)"
  shows "match_at isw s i = None"
proof (cases "i < length s")
  case True
  with assms have "drop i s = s ! i # drop (Suc i) s" "\<not> isw (s ! i)"
    by (simp_all add: Cons_nth_drop_Suc)
  then show ?thesis by (simp add: match_at_def)
next
  case False
  then show ?thesis by (simp add: match_at_def)
qed

lemma findall_from_runs:
  "\<not> (0 < pos \<and> pos < length s \<and> isw (s ! (pos - 1)) \<and> isw (s ! pos))
   \<Longrightarrow> findall_from isw s pos = word_runs isw (drop pos s)"
proof (induction isw s pos rule: findall_from.induct)
  case (1 isw s pos)
  show ?case
  proof (cases "pos < length s")
    case False
    then have "match_at isw s pos = None"
      by (simp add: match_at_no_word)
    moreover have "findall_from isw s (Suc pos) = []"
      using False by (subst findall_from.simps) simp
    ultimately show ?thesis
      using False by (subst findall_from.simps) simp
  next
    case inside: True
    then have "drop pos s = s ! pos # drop (Suc pos) s"
      by (simp add: Cons_nth_drop_Suc)
    then obtain cs where d: "drop pos s = s ! pos # cs" and cs: "cs = drop (Suc pos) s"
      by blast
    show ?thesis
    proof (cases "isw (s ! pos)")
      case False
      then have m: "match_at isw s pos = None"
        by (simp add: match_at_no_word)
      have "findall_from isw s (Suc pos) = word_runs isw (drop (Suc pos) s)"
        using inside m False by (intro "1.IH"(1)) auto
      then show ?thesis
        using inside m False by (subst findall_from.simps) (simp add: d cs)
    next
      case True
      let ?n = "length (takeWhile isw (drop pos s))"
      from "1.prems" inside True have "pos = 0 \<or> \<not> isw (s ! (pos - 1))"
        by auto
      with inside True have m: "match_at isw s pos = Some (pos + ?n)"
        by (intro match_at_run_start)
      have after: "\<not> (0 < pos + ?n \<and> pos + ?n < length s \<and> isw (s ! (pos + ?n - 1)) \<and> isw (s ! (pos + ?n)))"
      proof
        assume a: "0 < pos + ?n \<and> pos + ?n < length s \<and> isw (s ! (pos + ?n - 1)) \<and> isw (s ! (pos + ?n))"
        then have "?n < length (drop pos s)" by auto
        then have "\<not> isw (drop pos s ! ?n)" by (rule nth_length_takeWhile)
        with a show False by (simp add: nth_drop)
      qed
      have ih: "findall_from isw s (pos + ?n) = word_runs isw (drop (pos + ?n) s)"
        using inside m after by (intro "1.IH"(2)) auto
      have t: "take ?n (drop pos s) = takeWhile isw (drop pos s)"
        by (rule takeWhile_eq_take [symmetric])
      have "drop (pos + ?n) s = drop ?n (drop pos s)"
        by (simp add: add.commute)
      also have "\<dots> = dropWhile isw (drop pos s)"
        by (rule dropWhile_eq_drop [symmetric])
      finally have dr: "drop (pos + ?n) s = dropWhile isw (drop pos s)" .
      have "findall_from isw s pos = take ?n (drop pos s) # findall_from isw s (pos + ?n)"
        using inside m by (subst findall_from.simps) simp
      also have "\<dots> = takeWhile isw (drop pos s) # word_runs isw (dropWhile isw (drop pos s))"
        by (simp only: t ih dr)
      also have "\<dots> = word_runs isw (drop pos s)"
        using True by (simp add: d)
      finally show ?thesis .
    qed
  qed
qed

lemma findall_words_runs: "findall_words isw s = word_runs isw s"
  using findall_from_runs [of 0 s isw] by (simp add: findall_words_def)

lemma unique_words_append:
  "unique_words (xs @ [t]) words seen =
     (let ws = unique_words xs words seen
      in if 3 < length t \<and> t \<notin> seen \<union> {x \<in> set xs. 3 < length x} then ws @ [t] else ws)"
  by (induction xs words seen rule: unique_words.induct) (auto simp: Let_def)

lemma first_long_occurrences_snoc:
  "first_long_occurrences (ts @ [t]) =
     first_long_occurrences ts @ (if 3 < length t \<and> t \<notin> set ts then [t] else [])"
proof -
  let ?P = "\<lambda>us i. 3 < length (us ! i) \<and> us ! i \<notin> set (take i us)"
  have f: "filter (?P (ts @ [t])) [0..<length ts] = filter (?P ts) [0..<length ts]"
    by (rule filter_cong) (auto simp: nth_append)
  have m: "map (\<lambda>i. (ts @ [t]) ! i) (filter (?P ts) [0..<length ts])
         = map (\<lambda>i. ts ! i) (filter (?P ts) [0..<length ts])"
    by (rule map_cong) (auto simp: nth_append)
  have l: "map (\<lambda>i. (ts @ [t]) ! i) (filter (?P (ts @ [t])) [length ts])
         = (if 3 < length t \<and> t \<notin> set ts then [t] else [])"
    by simp
  have "first_long_occurrences (ts @ [t])
      = map (\<lambda>i. (ts @ [t]) ! i) (filter (?P (ts @ [t])) ([0..<length ts] @ [length ts]))"
    by (simp add: first_long_occurrences_def)
  also have "\<dots> = map (\<lambda>i. (ts @ [t]) ! i) (filter (?P (ts @ [t])) [0..<length ts])
                 @ map (\<lambda>i. (ts @ [t]) ! i) (filter (?P (ts @ [t])) [length ts])"
    by (simp only: filter_append map_append)
  also have "\<dots> = first_long_occurrences ts @ (if 3 < length t \<and> t \<notin> set ts then [t] else [])"
    by (simp only: f m l first_long_occurrences_def)
  finally show ?thesis .
qed

lemma unique_words_first_long: "unique_words ts [] {} = first_long_occurrences ts"
proof (induction ts rule: rev_induct)
  case Nil
  show ?case by (simp add: first_long_occurrences_def)
next
  case (snoc t ts)
  have "t \<notin> set ts" if "t \<notin> {x \<in> set ts. 3 < length x}" "3 < length t"
    using that by auto
  then show ?case
    by (auto simp: unique_words_append first_long_occurrences_snoc snoc.IH Let_def)
qed

text \<open>
  Claim C2. For every text, the words extracted are the maximal runs of word characters
  of the lowercased text, each kept only where it occurs first and only when it is longer
  than three characters, in the order of the text. On the text
  \<^verbatim>\<open>I really enjoyed watching sunsets yesterday\<close> the result is the five words
  really, enjoyed, watching, sunsets, yesterday.
\<close>

theorem extract_words_runs:
  "extract_words isw lower text = first_long_occurrences (word_runs isw (lower text))
   \<and> extract_words ascii_word_char ascii_lower ''I really enjoyed watching sunsets yesterday''
       = [''really'', ''enjoyed'', ''watching'', ''sunsets'', ''yesterday'']"
proof
  show "extract_words isw lower text = first_long_occurrences (word_runs isw (lower text))"
    by (simp add: extract_words_def findall_words_runs unique_words_first_long)
  show "extract_words ascii_word_char ascii_lower ''I really enjoyed watching sunsets yesterday''
       = [''really'', ''enjoyed'', ''watching'', ''sunsets'', ''yesterday'']"
    by code_simp
qed

section \<open>Pipeline properties\<close>

subsection \<open>Sending\<close>

lemma reply_text_ok:
  "send w m = None \<Longrightarrow> reply_text w m s = (None, s\<lparr>sent := sent s @ [m]\<rparr>)"
  by (simp add: reply_text_def)

lemma reply_text_refused:
  "send w m = Some e \<Longrightarrow> reply_text w m s = (Some e, s)"
  by (simp add: reply_text_def)

lemma reply_text_keeps:
  "bill (snd (reply_text w m s)) = bill s"
  "files (snd (reply_text w m s)) = files s"
  by (simp_all add: reply_text_def split: option.splits)

lemma send_cards_ok:
  "\<forall>m. send w m = None \<Longrightarrow> send_cards w ws s = (None, s\<lparr>sent := sent s @ map WordCard ws\<rparr>)"
  by (induction ws arbitrary: s) (simp_all add: reply_text_ok)

subsection \<open>The run, case by case\<close>

lemma try_block_transcribe_raises:
  assumes "ogg_path \<in> files s" "transcribe w = Inl e"
  shows "try_block isw lower w v ogg_path s = (Some e, s)"
  using assms by (simp add: try_block_def)

lemma try_block_loop_raises:
  assumes "ogg_path \<in> files s" "transcribe w = Inr text"
    and "enrich_loop (chat_completion w) text (extract_words isw lower text) acc_init = Inl e"
    and "\<forall>m. send w m = None"
  shows "try_block isw lower w v ogg_path s =
     (Some e, s\<lparr>bill := record_calls [whisper_call v] (bill s),
                sent := sent s @ [RecognizedText text,
                  WhisperBilled (real_of_int (duration v) / 60 * 0.006)
                    (real_of_int (duration v) / 60 * 0.006 * USD_TO_UZS)]\<rparr>)"
  using assms
  by (simp add: try_block_def Let_def reply_text_ok add_billing_entry_def whisper_call_def)

lemma try_block_billed:
  assumes "ogg_path \<in> files s" "transcribe w = Inr text"
    and "enrich_loop (chat_completion w) text (extract_words isw lower text) acc_init = Inr a"
    and "\<forall>m. send w m = None"
  shows "try_block isw lower w v ogg_path s =
     (None, s\<lparr>bill := record_calls [whisper_call v, gpt_call a] (bill s),
              sent := sent s @ [RecognizedText text,
                  WhisperBilled (real_of_int (duration v) / 60 * 0.006)
                    (real_of_int (duration v) / 60 * 0.006 * USD_TO_UZS)]
                @ map WordCard (word_list a)
                @ [GptBilled (run_total_tokens a) (fst (snd (gpt_call a)))
                     (fst (snd (gpt_call a)) * USD_TO_UZS)]\<rparr>)"
  using assms
  by (simp add: try_block_def Let_def reply_text_ok send_cards_ok add_billing_entry_def
      whisper_call_def gpt_call_def model_name_def)

lemma handle_voice_get_file_raises:
  assumes "get_file w = Some e"
  shows "handle_voice isw lower w (Some v) s = (Some e, s)"
  using assms by (simp add: handle_voice_def)

lemma handle_voice_download_raises:
  assumes "get_file w = None" "download_to_drive w = Some e"
  shows "handle_voice isw lower w (Some v) s =
     (Some e, s\<lparr>files := insert (temp_name w) (files s)\<rparr>)"
  using assms by (simp add: handle_voice_def Let_def)

text \<open>
  When the transcription raises, the text of the exception is sent; whether or not that
  send is accepted, the ledger is untouched and the temporary file is removed.
\<close>

lemma handle_voice_transcribe_raises:
  assumes "get_file w = None" "download_to_drive w = None" "transcribe w = Inl e"
  shows "handle_voice isw lower w (Some v) s =
     (send w (RecognitionError e),
      s\<lparr>files := files s - {temp_name w},
        sent := (case send w (RecognitionError e) of
                   None \<Rightarrow> sent s @ [RecognitionError e]
                 | Some x \<Rightarrow> sent s)\<rparr>)"
proof (cases "send w (RecognitionError e)")
  case None
  with assms show ?thesis
    by (simp add: handle_voice_def Let_def try_block_transcribe_raises reply_text_ok
        remove_temp_def os_remove_def)
next
  case (Some x)
  with assms show ?thesis
    by (simp add: handle_voice_def Let_def try_block_transcribe_raises reply_text_refused
        remove_temp_def os_remove_def)
qed

lemma handle_voice_loop_raises:
  assumes "get_file w = None" "download_to_drive w = None" "transcribe w = Inr text"
    and "enrich_loop (chat_completion w) text (extract_words isw lower text) acc_init = Inl e"
    and "\<forall>m. send w m = None"
  shows "handle_voice isw lower w (Some v) s =
     (None, s\<lparr>bill := record_calls [whisper_call v] (bill s),
              files := files s - {temp_name w},
              sent := sent s @ [RecognizedText text,
                  WhisperBilled (real_of_int (duration v) / 60 * 0.006)
                    (real_of_int (duration v) / 60 * 0.006 * USD_TO_UZS),
                  RecognitionError e]\<rparr>)"
proof -
  let ?s1 = "s\<lparr>files := insert (temp_name w) (files s)\<rparr>"
  have t: "try_block isw lower w v (temp_name w) ?s1 =
     (Some e, ?s1\<lparr>bill := record_calls [whisper_call v] (bill ?s1),
         sent := sent ?s1 @ [RecognizedText text,
                  WhisperBilled (real_of_int (duration v) / 60 * 0.006)
                    (real_of_int (duration v) / 60 * 0.006 * USD_TO_UZS)]\<rparr>)"
    using assms(3,4,5) by (intro try_block_loop_raises) simp_all
  from assms(5) have r: "send w (RecognitionError e) = None" by simp
  show ?thesis
    using assms(1,2)
    by (simp add: handle_voice_def Let_def t reply_text_ok [OF r] remove_temp_def os_remove_def)
qed

lemma handle_voice_billed:
  assumes "get_file w = None" "download_to_drive w = None" "transcribe w = Inr text"
    and "enrich_loop (chat_completion w) text (extract_words isw lower text) acc_init = Inr a"
    and "\<forall>m. send w m = None"
  shows "handle_voice isw lower w (Some v) s =
     (None, s\<lparr>bill := record_calls [whisper_call v, gpt_call a] (bill s),
              files := files s - {temp_name w},
              sent := sent s @ [RecognizedText text,
                  WhisperBilled (real_of_int (duration v) / 60 * 0.006)
                    (real_of_int (duration v) / 60 * 0.006 * USD_TO_UZS)]
                @ map WordCard (word_list a)
                @ [GptBilled (run_total_tokens a) (fst (snd (gpt_call a)))
                     (fst (snd (gpt_call a)) * USD_TO_UZS)]\<rparr>)"
proof -
  let ?s1 = "s\<lparr>files := insert (temp_name w) (files s)\<rparr>"
  have t: "try_block isw lower w v (temp_name w) ?s1 =
     (None, ?s1\<lparr>bill := record_calls [whisper_call v, gpt_call a] (bill ?s1),
              sent := sent ?s1 @ [RecognizedText text,
                  WhisperBilled (real_of_int (duration v) / 60 * 0.006)
                    (real_of_int (duration v) / 60 * 0.006 * USD_TO_UZS)]
                @ map WordCard (word_list a)
                @ [GptBilled (run_total_tokens a) (fst (snd (gpt_call a)))
                     (fst (snd (gpt_call a)) * USD_TO_UZS)]\<rparr>)"
    using assms(3,4,5) by (intro try_block_billed) simp_all
  show ?thesis
    using assms(1,2)
    by (simp add: handle_voice_def Let_def t remove_temp_def os_remove_def)
qed

text \<open>
  A send that is refused after the transcription leaves the body before the ledger call
  that follows it: refusing the first message leaves the ledger as it was.
\<close>

lemma handle_voice_first_send_refused:
  assumes "get_file w = None" "download_to_drive w = None" "transcribe w = Inr text"
    and "send w (RecognizedText text) = Some e"
  shows "bill (snd (handle_voice isw lower w (Some v) s)) = bill s"
  using assms
  by (simp add: handle_voice_def Let_def try_block_def reply_text_refused reply_text_keeps
      remove_temp_def os_remove_def split_def)

subsection \<open>The enrichment loop\<close>

lemma accumulate_usage_word_list: "word_list (accumulate_usage r a) = word_list a"
  by (simp add: accumulate_usage_def Let_def split: option.splits)

lemma accumulate_usage_absent: "usage r = None \<Longrightarrow> accumulate_usage r a = a"
  by (simp add: accumulate_usage_def)

lemma accumulate_usage_whole:
  assumes "usage_whole r"
  shows "total_prompt_tokens (accumulate_usage r a) = total_prompt_tokens a + prompt_count (Inr r)"
    and "total_completion_tokens (accumulate_usage r a) = total_completion_tokens a + completion_count (Inr r)"
    and "run_total_tokens (accumulate_usage r a) = run_total_tokens a + total_count (Inr r)"
  using assms
  by (auto simp: usage_whole_def accumulate_usage_def prompt_count_def completion_count_def
      total_count_def Let_def split: option.splits)

lemma call_succeedsD:
  assumes "call_succeeds x"
  obtains r items where "x = Inr r" "loads_content r = Some (JObject items)" "usage_whole r"
  using assms
  by (auto simp: call_succeeds_def split: sum.splits option.splits json.splits)

lemma enrich_word_object:
  assumes "chat wd text = Inr r" "loads_content r = Some (JObject items)"
  shows "enrich_word chat text wd a =
     Inr (accumulate_usage r (a\<lparr>word_list := word_list a @
        [\<lparr>word = wd,
          translate = (case map_of items ''translate'' of None \<Rightarrow> JString ''Not found'' | Some j \<Rightarrow> j),
          definition_of = (case map_of items ''definition'' of None \<Rightarrow> JString ''Not found'' | Some j \<Rightarrow> j)\<rparr>]\<rparr>))"
  using assms by (simp add: enrich_word_def)

lemma enrich_word_succeeds:
  assumes "call_succeeds (chat wd text)"
  shows "\<exists>a'. enrich_word chat text wd a = Inr a'
     \<and> total_prompt_tokens a' = total_prompt_tokens a + prompt_count (chat wd text)
     \<and> total_completion_tokens a' = total_completion_tokens a + completion_count (chat wd text)
     \<and> run_total_tokens a' = run_total_tokens a + total_count (chat wd text)"
proof -
  from assms obtain r items where r: "chat wd text = Inr r"
    "loads_content r = Some (JObject items)" "usage_whole r"
    by (rule call_succeedsD)
  show ?thesis
    by (simp add: enrich_word_object [of chat wd "text" r items a, OF r(1,2)] accumulate_usage_whole [OF r(3)] r(1))
qed

lemma enrich_loop_succeeds:
  assumes "\<forall>wd\<in>set ws. call_succeeds (chat wd text)"
  shows "\<exists>a'. enrich_loop chat text ws a = Inr a'
     \<and> total_prompt_tokens a' = total_prompt_tokens a + sum_list (map (\<lambda>wd. prompt_count (chat wd text)) ws)
     \<and> total_completion_tokens a' =
         total_completion_tokens a + sum_list (map (\<lambda>wd. completion_count (chat wd text)) ws)
     \<and> run_total_tokens a' = run_total_tokens a + sum_list (map (\<lambda>wd. total_count (chat wd text)) ws)"
  using assms
proof (induction ws arbitrary: a)
  case Nil
  show ?case by simp
next
  case (Cons wd ws)
  from Cons.prems have "call_succeeds (chat wd text)" by simp
  from enrich_word_succeeds [of chat wd "text" a, OF this] obtain a1 where a1:
    "enrich_word chat text wd a = Inr a1"
    "total_prompt_tokens a1 = total_prompt_tokens a + prompt_count (chat wd text)"
    "total_completion_tokens a1 = total_completion_tokens a + completion_count (chat wd text)"
    "run_total_tokens a1 = run_total_tokens a + total_count (chat wd text)"
    by blast
  from Cons.prems have "\<forall>wd\<in>set ws. call_succeeds (chat wd text)" by simp
  from Cons.IH [OF this, where a = a1] obtain a' where a':
    "enrich_loop chat text ws a1 = Inr a'"
    "total_prompt_tokens a' = total_prompt_tokens a1 + sum_list (map (\<lambda>wd. prompt_count (chat wd text)) ws)"
    "total_completion_tokens a' =
       total_completion_tokens a1 + sum_list (map (\<lambda>wd. completion_count (chat wd text)) ws)"
    "run_total_tokens a' = run_total_tokens a1 + sum_list (map (\<lambda>wd. total_count (chat wd text)) ws)"
    by blast
  show ?case
    by (simp add: a1 a')
qed

lemma enrich_word_dropped:
  assumes "call_dropped (chat wd text)"
  shows "enrich_word chat text wd a = Inr a"
  using assms
  by (auto simp: call_dropped_def enrich_word_def split: sum.splits option.splits)

lemma enrich_loop_dropped:
  assumes "\<forall>wd\<in>set ws. call_dropped (chat wd text)"
  shows "enrich_loop chat text ws a = Inr a"
  using assms by (induction ws) (simp_all add: enrich_word_dropped)

lemma enrich_word_non_object:
  assumes "chat wd text = Inr r" "loads_content r = Some data" "\<forall>items. data \<noteq> JObject items"
  shows "enrich_word chat text wd a = Inl (AttributeError ''get'')"
  using assms by (cases data) (simp_all add: enrich_word_def)

lemma enrich_word_continues:
  assumes "call_continues (chat wd text)"
  shows "\<exists>a'. enrich_word chat text wd a = Inr a'"
  using assms
  by (auto simp: call_continues_def enrich_word_def split: sum.splits option.splits json.splits)

lemma enrich_loop_continues:
  assumes "\<forall>wd\<in>set ws. call_continues (chat wd text)"
  shows "\<exists>a'. enrich_loop chat text ws a = Inr a'"
  using assms
proof (induction ws arbitrary: a)
  case Nil
  show ?case by simp
next
  case (Cons wd ws)
  from Cons.prems have "call_continues (chat wd text)" by simp
  from enrich_word_continues [of chat wd "text" a, OF this] obtain a1 where
    a1: "enrich_word chat text wd a = Inr a1" by blast
  from Cons.prems have "\<forall>wd\<in>set ws. call_continues (chat wd text)" by simp
  from Cons.IH [OF this, where a = a1] show ?case
    by (simp add: a1)
qed

lemma demo_words:
  "extract_words ascii_word_char ascii_lower ''I really enjoyed it'' = [''really'', ''enjoyed'']"
  by code_simp

lemma hello_words:
  "extract_words ascii_word_char ascii_lower ''hello world'' = [''hello'', ''world'']"
  by code_simp

lemma str_int_30: "str_int 30 = ''30''"
  by code_simp

section \<open>The claims about a pipeline run\<close>

text \<open>
  Claim C3 says that a run in which the transcription and all enrichment calls succeed
  appends exactly two entries. The messages to the user are sent inside the same
  \<^verbatim>\<open>try\<close> statement, before the ledger calls that follow them. In the run below the
  transcription and both enrichment calls succeed and the platform refuses the word
  cards: the run ends in the \<^verbatim>\<open>except\<close> clause and the ledger has the entry of the
  transcription only.
\<close>

theorem refused_send_skips_gpt_entry:
  "transcribe demo_world_cards_refused = Inr ''I really enjoyed it''
   \<and> extract_words ascii_word_char ascii_lower ''I really enjoyed it'' = [''really'', ''enjoyed'']
   \<and> call_succeeds (chat_completion demo_world_cards_refused ''really'' ''I really enjoyed it'')
   \<and> call_succeeds (chat_completion demo_world_cards_refused ''enjoyed'' ''I really enjoyed it'')
   \<and> map model (entries (bill (snd (handle_voice ascii_word_char ascii_lower
         demo_world_cards_refused (Some \<lparr>duration = 30\<rparr>) state_init)))) = [''whisper-1'']"
  by (simp add: demo_world_cards_refused_def demo_world_def demo_response_def demo_words
      call_succeeds_def usage_whole_def handle_voice_def try_block_def reply_text_def Let_def
      enrich_word_def accumulate_usage_def acc_init_def add_billing_entry_def state_init_def
      billing_init_def remove_temp_def os_remove_def)

text \<open>
  Claim C3, amended. In a run in which the transcription succeeds, every enrichment call
  succeeds (it returns a response whose content parses to a JSON object and whose usage is
  absent or carries all three counts) and every message to the user is accepted, exactly
  two entries are appended to the ledger, in this order: the entry of the transcription,
  with raw cost (duration / 60) * 0.006 for the duration of the voice message, and one
  entry of the analysis, with raw cost P * (0.40 / 1000000) + C * (1.60 / 1000000), where
  P and C are the prompt and completion counts summed over the calls of all words of the
  run; its token count is the sum of the total counts.
\<close>

theorem billing_per_run:
  assumes "get_file w = None" "download_to_drive w = None" "transcribe w = Inr text"
    and "\<forall>wd\<in>set (extract_words isw lower text). call_succeeds (chat_completion w wd text)"
    and "\<forall>m. send w m = None"
  shows "entries (bill (snd (handle_voice isw lower w (Some v) s))) = entries (bill s) @
     [entry_of (''whisper-1'', (real_of_int (duration v) / 60) * 0.006, 0,
        ''voice duration: '' @ str_int (duration v) @ '' seconds''),
      entry_of (''gpt-4.1-mini'',
        real_of_int (sum_list (map (\<lambda>wd. prompt_count (chat_completion w wd text))
                       (extract_words isw lower text))) * (0.40 / 1000000)
        + real_of_int (sum_list (map (\<lambda>wd. completion_count (chat_completion w wd text))
                         (extract_words isw lower text))) * (1.60 / 1000000),
        sum_list (map (\<lambda>wd. total_count (chat_completion w wd text)) (extract_words isw lower text)),
        ''per voice analysis'')]"
proof -
  from enrich_loop_succeeds [of "extract_words isw lower text" "chat_completion w" "text" acc_init, OF assms(4)] obtain a where a:
    "enrich_loop (chat_completion w) text (extract_words isw lower text) acc_init = Inr a"
    "total_prompt_tokens a =
       sum_list (map (\<lambda>wd. prompt_count (chat_completion w wd text)) (extract_words isw lower text))"
    "total_completion_tokens a =
       sum_list (map (\<lambda>wd. completion_count (chat_completion w wd text)) (extract_words isw lower text))"
    "run_total_tokens a =
       sum_list (map (\<lambda>wd. total_count (chat_completion w wd text)) (extract_words isw lower text))"
    by (auto simp: acc_init_def)
  have "entries (bill (snd (handle_voice isw lower w (Some v) s)))
      = entries (bill s) @ [entry_of (whisper_call v), entry_of (gpt_call a)]"
    by (simp add: handle_voice_billed [OF assms(1-3) a(1) assms(5)] record_calls_entries)
  then show ?thesis
    by (simp add: whisper_call_def gpt_call_def a(2-4))
qed

theorem billing_per_run_witness:
  "get_file demo_world = None \<and> download_to_drive demo_world = None
   \<and> transcribe demo_world = Inr ''I really enjoyed it''
   \<and> extract_words ascii_word_char ascii_lower ''I really enjoyed it'' = [''really'', ''enjoyed'']
   \<and> call_succeeds (chat_completion demo_world ''really'' ''I really enjoyed it'')
   \<and> call_succeeds (chat_completion demo_world ''enjoyed'' ''I really enjoyed it'')
   \<and> send demo_world = (\<lambda>m. None)
   \<and> entries (bill (snd (handle_voice ascii_word_char ascii_lower demo_world
         (Some \<lparr>duration = 30\<rparr>) state_init)))
     = [\<lparr>model = ''whisper-1'', raw_sum = 0.003, sum_uzs = 60.0006, tokens = 0,
          note_text = ''voice duration: 30 seconds''\<rparr>,
        \<lparr>model = ''gpt-4.1-mini'', raw_sum = 0.000024, sum_uzs = 0.4800048, tokens = 30,
          note_text = ''per voice analysis''\<rparr>]"
proof -
  have h1: "get_file demo_world = None" and h2: "download_to_drive demo_world = None"
    and h3: "transcribe demo_world = Inr ''I really enjoyed it''"
    by (simp_all add: demo_world_def)
  have h4: "\<forall>wd\<in>set (extract_words ascii_word_char ascii_lower ''I really enjoyed it'').
         call_succeeds (chat_completion demo_world wd ''I really enjoyed it'')"
    by (simp add: demo_world_def demo_response_def call_succeeds_def usage_whole_def)
  have c: "call_succeeds (chat_completion demo_world ''really'' ''I really enjoyed it'')"
    "call_succeeds (chat_completion demo_world ''enjoyed'' ''I really enjoyed it'')"
    by (simp_all add: demo_world_def demo_response_def call_succeeds_def usage_whole_def)
  have h5: "\<forall>m. send demo_world m = None"
    by (simp add: demo_world_def)
  have sd: "send demo_world = (\<lambda>m. None)"
    by (simp add: demo_world_def)
  show ?thesis
    using h1 h2 h3 c sd
      billing_per_run [OF h1 h2 h3 h4 h5, of "\<lparr>duration = 30\<rparr>" state_init]
    by (simp add: demo_words demo_world_def demo_response_def prompt_count_def
        completion_count_def total_count_def entry_of_def USD_TO_UZS_def state_init_def
        billing_init_def str_int_30)
qed

text \<open>
  Claim C5. When the transcription call raises, the ledger after the run is the ledger
  before it (no entry is appended) and the temporary file does not exist any more,
  whether or not the message of the exception can be sent: when it is accepted the user
  has received it and the handler returns normally, when it is refused nothing is
  delivered and the exception of the send leaves the handler, after the clean-up.
\<close>

theorem transcription_failure_cleanup:
  assumes "get_file w = None" "download_to_drive w = None" "transcribe w = Inl e"
  shows "bill (snd (handle_voice isw lower w (Some v) s)) = bill s
     \<and> entries (bill (snd (handle_voice isw lower w (Some v) s))) = entries (bill s)
     \<and> temp_name w \<notin> files (snd (handle_voice isw lower w (Some v) s))
     \<and> sent (snd (handle_voice isw lower w (Some v) s))
         = (case send w (RecognitionError e) of
              None \<Rightarrow> sent s @ [RecognitionError e]
            | Some x \<Rightarrow> sent s)
     \<and> fst (handle_voice isw lower w (Some v) s) = send w (RecognitionError e)"
  by (simp add: handle_voice_transcribe_raises [OF assms])

theorem transcription_failure_cleanup_witness:
  "get_file (demo_world\<lparr>transcribe := Inl (OpenAIError ''Connection error.'')\<rparr>) = None
   \<and> download_to_drive (demo_world\<lparr>transcribe := Inl (OpenAIError ''Connection error.'')\<rparr>) = None
   \<and> transcribe (demo_world\<lparr>transcribe := Inl (OpenAIError ''Connection error.'')\<rparr>)
       = Inl (OpenAIError ''Connection error.'')
   \<and> bill (snd (handle_voice ascii_word_char ascii_lower
         (demo_world\<lparr>transcribe := Inl (OpenAIError ''Connection error.'')\<rparr>)
         (Some \<lparr>duration = 30\<rparr>) state_init)) = billing_init
   \<and> ''/tmp/tmpk3v9.ogg'' \<notin> files (snd (handle_voice ascii_word_char ascii_lower
         (demo_world\<lparr>transcribe := Inl (OpenAIError ''Connection error.'')\<rparr>)
         (Some \<lparr>duration = 30\<rparr>) state_init))"
proof -
  let ?w = "demo_world\<lparr>transcribe := Inl (OpenAIError ''Connection error.'')\<rparr>"
  have h1: "get_file ?w = None" and h2: "download_to_drive ?w = None"
    and h3: "transcribe ?w = Inl (OpenAIError ''Connection error.'')"
    by (simp_all add: demo_world_def)
  have t: "temp_name ?w = ''/tmp/tmpk3v9.ogg''"
    by (simp add: demo_world_def)
  show ?thesis
    using h1 h2 h3
      transcription_failure_cleanup [OF h1 h2 h3, of ascii_word_char ascii_lower
        "\<lparr>duration = 30\<rparr>" state_init]
    by (simp add: t state_init_def)
qed

text \<open>
  Claim C6 says that a failed download still removes the temporary file. The code creates
  the file with \<^verbatim>\<open>delete=False\<close> and downloads before the \<^verbatim>\<open>try\<close> statement whose
  \<^verbatim>\<open>finally\<close> clause removes it (\<open>handle_voice_download_raises\<close>). In the run
  below the download raises: the error handler sends the generic message, and the temporary file, which did not exist before
  the run, is left behind.
\<close>

theorem download_failure_leaves_temp_file:
  "files (process_update ascii_word_char ascii_lower
            (demo_world\<lparr>download_to_drive := Some (TelegramError ''Timed out'')\<rparr>)
            (Some \<lparr>duration = 30\<rparr>) state_init) = {''/tmp/tmpk3v9.ogg''}
   \<and> sent (process_update ascii_word_char ascii_lower
            (demo_world\<lparr>download_to_drive := Some (TelegramError ''Timed out'')\<rparr>)
            (Some \<lparr>duration = 30\<rparr>) state_init) = [GenericError]
   \<and> files (state_init :: char state) = {}"
  by (simp add: process_update_def handle_voice_def demo_world_def state_init_def Let_def
      error_handler_def reply_text_def)

text \<open>
  Claim C7. When the content of a response parses to a JSON object, the word is added to
  the list; a field that the object lacks is replaced by the sentinel string
  \<^verbatim>\<open>Not found\<close>, and a field that it has keeps the value of the response.
\<close>

theorem missing_field_sentinel:
  assumes "chat wd text = Inr r" "loads_content r = Some (JObject items)"
  shows "\<exists>a'. enrich_word chat text wd a = Inr a'
     \<and> word_list a' = word_list a @
        [\<lparr>word = wd,
          translate = (case map_of items ''translate'' of
                         None \<Rightarrow> JString ''Not found'' | Some j \<Rightarrow> j),
          definition_of = (case map_of items ''definition'' of
                         None \<Rightarrow> JString ''Not found'' | Some j \<Rightarrow> j)\<rparr>]"
  by (simp add: enrich_word_object [of chat wd "text" r items a, OF assms]
      accumulate_usage_word_list)

theorem missing_field_sentinel_witness:
  "(\<lambda>wd text. Inr (demo_response\<lparr>loads_content :=
        Some (JObject [(''definition'', JString ''haqiqatan'')])\<rparr>)) ''really'' ''I really enjoyed it''
     = Inr (demo_response\<lparr>loads_content := Some (JObject [(''definition'', JString ''haqiqatan'')])\<rparr>)
   \<and> loads_content (demo_response\<lparr>loads_content :=
        Some (JObject [(''definition'', JString ''haqiqatan'')])\<rparr>)
     = Some (JObject [(''definition'', JString ''haqiqatan'')])
   \<and> (\<exists>a'. enrich_word (\<lambda>wd text. Inr (demo_response\<lparr>loads_content :=
              Some (JObject [(''definition'', JString ''haqiqatan'')])\<rparr>))
            ''I really enjoyed it'' ''really'' acc_init = Inr a'
         \<and> word_list a' = [\<lparr>word = ''really'', translate = JString ''Not found'',
                              definition_of = JString ''haqiqatan''\<rparr>])"
proof -
  let ?r = "demo_response\<lparr>loads_content := Some (JObject [(''definition'', JString ''haqiqatan'')])\<rparr>"
  let ?chat = "\<lambda>(wd :: string) (text :: string). (Inr ?r :: exn + response)"
  have h1: "?chat ''really'' ''I really enjoyed it'' = Inr ?r"
    by simp
  have h2: "loads_content ?r = Some (JObject [(''definition'', JString ''haqiqatan'')])"
    by simp
  from missing_field_sentinel [of ?chat "''really''" "''I really enjoyed it''" ?r
      "[(''definition'', JString ''haqiqatan'')]" acc_init, OF h1 h2]
  have "\<exists>a'. enrich_word ?chat ''I really enjoyed it'' ''really'' acc_init = Inr a'
         \<and> word_list a' = [\<lparr>word = ''really'', translate = JString ''Not found'',
                              definition_of = JString ''haqiqatan''\<rparr>]"
    by (simp add: acc_init_def)
  with h2 show ?thesis by simp
qed

text \<open>
  Claim C8 says that a response which cannot be parsed as the expected object only drops
  its word. This holds for a content that is not JSON (\<open>enrich_word_dropped\<close>,
  \<open>enrich_loop_dropped\<close>). A content that is JSON but not an object passes
  \<^verbatim>\<open>json.loads\<close>, and \<^verbatim>\<open>data.get\<close> raises outside the inner \<^verbatim>\<open>try\<close>
  (\<open>enrich_word_non_object\<close>): in the run below every response is the empty JSON array, the user receives the message of the
  exception, the second word is never sent, and the ledger has the entry of the
  transcription only.
\<close>

theorem non_object_response_aborts:
  "handle_voice ascii_word_char ascii_lower
     (demo_world\<lparr>transcribe := Inr ''hello world'',
        chat_completion := (\<lambda>wd text. Inr (demo_response\<lparr>loads_content := Some (JArray [])\<rparr>))\<rparr>)
     (Some \<lparr>duration = 30\<rparr>) state_init
   = (None,
      \<lparr>bill = \<lparr>entries = [\<lparr>model = ''whisper-1'', raw_sum = 0.003, sum_uzs = 60.0006, tokens = 0,
                           note_text = ''voice duration: 30 seconds''\<rparr>],
               total_raw = 0.003, total_uzs = 60.0006, total_tokens = 0\<rparr>,
       files = {},
       sent = [RecognizedText ''hello world'', WhisperBilled 0.003 60.0006,
               RecognitionError (AttributeError ''get'')]\<rparr>)"
proof -
  let ?w = "demo_world\<lparr>transcribe := Inr ''hello world'',
        chat_completion := (\<lambda>wd text. Inr (demo_response\<lparr>loads_content := Some (JArray [])\<rparr>))\<rparr>"
  have h1: "get_file ?w = None" and h2: "download_to_drive ?w = None"
    and h3: "transcribe ?w = Inr ''hello world''"
    by (simp_all add: demo_world_def)
  have h4: "enrich_loop (chat_completion ?w) ''hello world''
       (extract_words ascii_word_char ascii_lower ''hello world'') acc_init
     = Inl (AttributeError ''get'')"
    by (simp add: hello_words enrich_word_def)
  have h5: "\<forall>m. send ?w m = None"
    by (simp add: demo_world_def)
  show ?thesis
    by (subst handle_voice_loop_raises [OF h1 h2 h3 h4 h5])
       (simp add: whisper_call_def add_billing_entry_def state_init_def billing_init_def
          USD_TO_UZS_def str_int_30 demo_world_def Let_def)
qed

text \<open>
  Claim C9 says that a response without usable counts adds nothing to the three counters.
  This holds when the usage is absent (\<open>accumulate_usage_absent\<close>). In the call below
  the usage has a prompt count of 10 and no completion count: the prompt counter has
  already been increased when the second addition raises, so the call adds 10 to the
  prompt counter and nothing to the other two.
\<close>

theorem partial_usage_is_counted:
  "enrich_word
     (\<lambda>wd text. Inr (demo_response\<lparr>usage := Some \<lparr>prompt_tokens = Some 10,
          completion_tokens = None, usage_total_tokens = Some 15\<rparr>\<rparr>))
     ''I really enjoyed it'' ''really'' acc_init
   = Inr \<lparr>word_list = [\<lparr>word = ''really'', translate = JString ''juda'',
                         definition_of = JString ''haqiqatan''\<rparr>],
          total_prompt_tokens = 10, total_completion_tokens = 0, run_total_tokens = 0\<rparr>"
  by (simp add: enrich_word_def demo_response_def accumulate_usage_def acc_init_def)

text \<open>
  Claim C10 says that every run that passes the transcription appends an entry for the
  analysis. In the run below the transcription succeeds and the enrichment call raises:
  the run ends in the handler of the \<^verbatim>\<open>try\<close> statement and the ledger has the entry of
  the transcription only. A message that the platform refuses ends the run in the same
  way (\<open>handle_voice_first_send_refused\<close>).
\<close>

theorem failed_call_skips_gpt_entry:
  "transcribe (demo_world\<lparr>chat_completion := (\<lambda>wd text. Inl (OpenAIError ''Rate limit reached''))\<rparr>)
     = Inr ''I really enjoyed it''
   \<and> map model (entries (bill (snd (handle_voice ascii_word_char ascii_lower
        (demo_world\<lparr>chat_completion := (\<lambda>wd text. Inl (OpenAIError ''Rate limit reached''))\<rparr>)
        (Some \<lparr>duration = 30\<rparr>) state_init)))) = [''whisper-1'']"
proof -
  let ?w = "demo_world\<lparr>chat_completion := (\<lambda>wd text. Inl (OpenAIError ''Rate limit reached''))\<rparr>"
  have h1: "get_file ?w = None" and h2: "download_to_drive ?w = None"
    and h3: "transcribe ?w = Inr ''I really enjoyed it''"
    by (simp_all add: demo_world_def)
  have h4: "enrich_loop (chat_completion ?w) ''I really enjoyed it''
       (extract_words ascii_word_char ascii_lower ''I really enjoyed it'') acc_init
     = Inl (OpenAIError ''Rate limit reached'')"
    by (simp add: demo_words enrich_word_def)
  have h5: "\<forall>m. send ?w m = None"
    by (simp add: demo_world_def)
  show ?thesis
    by (simp add: handle_voice_loop_raises [OF h1 h2 h3 h4 h5] h3 whisper_call_def
        add_billing_entry_def state_init_def billing_init_def Let_def)
qed

text \<open>
  Claim C10, amended. A run that passes the transcription, in which every enrichment call
  returns a response that either does not parse or parses to a JSON object, and in which
  every message to the user is accepted, appends the entry of the transcription and then
  the entry of the analysis, and its last message is the one about the cost of the
  analysis. When every word is dropped, and so also when there is no word, that entry has
  raw cost 0 and token count 0. Such a run adds exactly two entries whatever the number of
  words.
\<close>

theorem gpt_entry_when_loop_completes:
  assumes "get_file w = None" "download_to_drive w = None" "transcribe w = Inr text"
    and "\<forall>wd\<in>set (extract_words isw lower text). call_continues (chat_completion w wd text)"
    and "\<forall>m. send w m = None"
  shows "\<exists>cost toks.
       entries (bill (snd (handle_voice isw lower w (Some v) s))) = entries (bill s) @
         [entry_of (''whisper-1'', (real_of_int (duration v) / 60) * 0.006, 0,
            ''voice duration: '' @ str_int (duration v) @ '' seconds''),
          entry_of (''gpt-4.1-mini'', cost, toks, ''per voice analysis'')]
     \<and> last (sent (snd (handle_voice isw lower w (Some v) s)))
         = GptBilled toks cost (cost * USD_TO_UZS)
     \<and> ((\<forall>wd\<in>set (extract_words isw lower text). call_dropped (chat_completion w wd text))
          \<longrightarrow> cost = 0 \<and> toks = 0)"
proof -
  from enrich_loop_continues [of "extract_words isw lower text" "chat_completion w" "text" acc_init,
      OF assms(4)]
  obtain a where a: "enrich_loop (chat_completion w) text (extract_words isw lower text) acc_init = Inr a"
    by blast
  have e: "entries (bill (snd (handle_voice isw lower w (Some v) s)))
      = entries (bill s) @ [entry_of (whisper_call v), entry_of (gpt_call a)]"
    by (simp add: handle_voice_billed [OF assms(1-3) a assms(5)] record_calls_entries)
  have m: "last (sent (snd (handle_voice isw lower w (Some v) s)))
      = GptBilled (run_total_tokens a) (fst (snd (gpt_call a))) (fst (snd (gpt_call a)) * USD_TO_UZS)"
    by (simp add: handle_voice_billed [OF assms(1-3) a assms(5)])
  have z: "fst (snd (gpt_call a)) = 0 \<and> run_total_tokens a = 0"
    if "\<forall>wd\<in>set (extract_words isw lower text). call_dropped (chat_completion w wd text)"
  proof -
    from enrich_loop_dropped [of "extract_words isw lower text" "chat_completion w" "text" acc_init,
        OF that] a
    have "a = acc_init" by simp
    then show ?thesis by (simp add: gpt_call_def acc_init_def)
  qed
  have g: "gpt_call a = (''gpt-4.1-mini'', fst (snd (gpt_call a)), run_total_tokens a, ''per voice analysis'')"
    by (simp add: gpt_call_def)
  show ?thesis
    apply (rule exI [of _ "fst (snd (gpt_call a))"])
    apply (rule exI [of _ "run_total_tokens a"])
    using e m z g by (simp add: whisper_call_def)
qed

theorem gpt_entry_when_loop_completes_witness:
  "get_file (demo_world\<lparr>chat_completion := (\<lambda>wd text. Inr (demo_response\<lparr>loads_content := None\<rparr>))\<rparr>) = None
   \<and> download_to_drive
        (demo_world\<lparr>chat_completion := (\<lambda>wd text. Inr (demo_response\<lparr>loads_content := None\<rparr>))\<rparr>) = None
   \<and> transcribe (demo_world\<lparr>chat_completion := (\<lambda>wd text. Inr (demo_response\<lparr>loads_content := None\<rparr>))\<rparr>)
        = Inr ''I really enjoyed it''
   \<and> extract_words ascii_word_char ascii_lower ''I really enjoyed it'' = [''really'', ''enjoyed'']
   \<and> call_continues (chat_completion
          (demo_world\<lparr>chat_completion := (\<lambda>wd text. Inr (demo_response\<lparr>loads_content := None\<rparr>))\<rparr>)
          ''really'' ''I really enjoyed it'')
   \<and> call_continues (chat_completion
          (demo_world\<lparr>chat_completion := (\<lambda>wd text. Inr (demo_response\<lparr>loads_content := None\<rparr>))\<rparr>)
          ''enjoyed'' ''I really enjoyed it'')
   \<and> call_dropped (chat_completion
          (demo_world\<lparr>chat_completion := (\<lambda>wd text. Inr (demo_response\<lparr>loads_content := None\<rparr>))\<rparr>)
          ''really'' ''I really enjoyed it'')
   \<and> call_dropped (chat_completion
          (demo_world\<lparr>chat_completion := (\<lambda>wd text. Inr (demo_response\<lparr>loads_content := None\<rparr>))\<rparr>)
          ''enjoyed'' ''I really enjoyed it'')
   \<and> send (demo_world\<lparr>chat_completion := (\<lambda>wd text. Inr (demo_response\<lparr>loads_content := None\<rparr>))\<rparr>)
        = (\<lambda>m. None)
   \<and> entries (bill (snd (handle_voice ascii_word_char ascii_lower
        (demo_world\<lparr>chat_completion := (\<lambda>wd text. Inr (demo_response\<lparr>loads_content := None\<rparr>))\<rparr>)
        (Some \<lparr>duration = 30\<rparr>) state_init)))
     = [\<lparr>model = ''whisper-1'', raw_sum = 0.003, sum_uzs = 60.0006, tokens = 0,
          note_text = ''voice duration: 30 seconds''\<rparr>,
        \<lparr>model = ''gpt-4.1-mini'', raw_sum = 0, sum_uzs = 0, tokens = 0,
          note_text = ''per voice analysis''\<rparr>]
   \<and> last (sent (snd (handle_voice ascii_word_char ascii_lower
        (demo_world\<lparr>chat_completion := (\<lambda>wd text. Inr (demo_response\<lparr>loads_content := None\<rparr>))\<rparr>)
        (Some \<lparr>duration = 30\<rparr>) state_init))) = GptBilled 0 0 0"
proof -
  let ?w = "demo_world\<lparr>chat_completion := (\<lambda>wd text. Inr (demo_response\<lparr>loads_content := None\<rparr>))\<rparr>"
  have h1: "get_file ?w = None" and h2: "download_to_drive ?w = None"
    and h3: "transcribe ?w = Inr ''I really enjoyed it''"
    by (simp_all add: demo_world_def)
  have h4: "\<forall>wd\<in>set (extract_words ascii_word_char ascii_lower ''I really enjoyed it'').
        call_continues (chat_completion ?w wd ''I really enjoyed it'')"
    by (simp add: call_continues_def)
  have h5: "\<forall>wd\<in>set (extract_words ascii_word_char ascii_lower ''I really enjoyed it'').
        call_dropped (chat_completion ?w wd ''I really enjoyed it'')"
    by (simp add: call_dropped_def)
  have h6: "\<forall>m. send ?w m = None"
    by (simp add: demo_world_def)
  have sd: "send ?w = (\<lambda>m. None)"
    by (simp add: demo_world_def)
  from gpt_entry_when_loop_completes [OF h1 h2 h3 h4 h6, of "\<lparr>duration = 30\<rparr>" state_init] h5
  obtain cost toks where
    c: "entries (bill (snd (handle_voice ascii_word_char ascii_lower ?w (Some \<lparr>duration = 30\<rparr>) state_init)))
        = entries (bill (state_init :: char state)) @
         [entry_of (''whisper-1'', (real_of_int (duration \<lparr>duration = 30\<rparr>) / 60) * 0.006, 0,
            ''voice duration: '' @ str_int (duration \<lparr>duration = 30\<rparr>) @ '' seconds''),
          entry_of (''gpt-4.1-mini'', cost, toks, ''per voice analysis'')]"
    and l: "last (sent (snd (handle_voice ascii_word_char ascii_lower ?w (Some \<lparr>duration = 30\<rparr>) state_init)))
         = GptBilled toks cost (cost * USD_TO_UZS)"
    and z: "cost = 0 \<and> toks = 0"
    by blast
  have k: "call_continues (chat_completion ?w ''really'' ''I really enjoyed it'')"
    "call_continues (chat_completion ?w ''enjoyed'' ''I really enjoyed it'')"
    by (simp_all add: call_continues_def)
  have d: "call_dropped (chat_completion ?w ''really'' ''I really enjoyed it'')"
    "call_dropped (chat_completion ?w ''enjoyed'' ''I really enjoyed it'')"
    by (simp_all add: call_dropped_def)
  from c l z h1 h2 h3 k d sd show ?thesis
    by (simp add: entry_of_def state_init_def billing_init_def USD_TO_UZS_def str_int_30
        demo_words)
qed

end
